theory Spec2Isabelle
  imports Main
begin

section \<open>The token stream\<close>

text \<open>
  \<^verbatim>\<open>strip.py\<close> iterates over the 5-tuples produced by Python's
  \<^verbatim>\<open>tokenize.generate_tokens\<close>. The token kinds that \<^verbatim>\<open>stripFile\<close> names are
  constructors of their own; every other kind of the \<^verbatim>\<open>token\<close> module is
  \<open>OTHER n\<close> with its numeric code.
\<close>

datatype tokenType =
    ENDMARKER | NAME | NUMBER | STRING | NEWLINE | INDENT | DEDENT
  | OP | COMMENT | NL | OTHER nat

record tokenInfo =
  tokenType :: tokenType
  tokenText :: string
  startPos :: "nat \<times> nat"
  endPos :: "nat \<times> nat"
  lineText :: string

text \<open>A token with the given kind and text; positions play no part in the rewriting.\<close>

definition tok :: "tokenType \<Rightarrow> string \<Rightarrow> tokenInfo" where
  "tok k txt = \<lparr>tokenType = k, tokenText = txt, startPos = (0, 0), endPos = (0, 0), lineText = []\<rparr>"

section \<open>Strings and errors of the Python run time\<close>

text \<open>
  Python's \<^verbatim>\<open>s * n\<close> on a string: \<open>n\<close> copies of \<open>s\<close>, and the empty string
  when \<open>n\<close> is zero or negative.
\<close>

definition str_mul :: "string \<Rightarrow> int \<Rightarrow> string" where
  "str_mul s n = concat (replicate (nat n) s)"

definition newline :: string where
  "newline = [CHR 0x0A]"

definition tab :: string where
  "tab = [CHR 0x09]"

definition space :: string where
  "space = [CHR 0x20]"

text \<open>The only exception the loop body itself can raise: a name that is bound nowhere.\<close>

datatype error = NameError string

section \<open>The state of \<^verbatim>\<open>stripFile\<close>\<close>

text \<open>
  The four local variables of \<^verbatim>\<open>stripFile\<close>, the sink \<^verbatim>\<open>destination\<close> as the
  list of strings written to it so far (one entry per \<^verbatim>\<open>write\<close> call, in order),
  and the error stream.
\<close>

record rewriter =
  previousTokenType :: tokenType
  indentLevel :: int
  didNewLine :: bool
  needNewLine :: bool
  destination :: "string list"
  errStream :: "string list"

definition indentChar :: "int \<Rightarrow> string" where
  "indentChar indent = (if indent = 0 then tab else str_mul space indent)"

definition initial :: "string list \<Rightarrow> rewriter" where
  "initial dest = \<lparr>previousTokenType = INDENT, indentLevel = 0, didNewLine = False,
     needNewLine = False, destination = dest, errStream = []\<rparr>"

definition destWrite :: "string \<Rightarrow> rewriter \<Rightarrow> rewriter" where
  "destWrite txt s = s\<lparr>destination := destination s @ [txt]\<rparr>"

definition nameOrNumber :: "tokenType \<Rightarrow> bool" where
  "nameOrNumber k = (k = NAME \<or> k = NUMBER)"

text \<open>
  One iteration of the \<^verbatim>\<open>for\<close> loop (lines 60 to 127). With \<^verbatim>\<open>debug\<close> set, the
  arguments of the \<^verbatim>\<open>print\<close> call are evaluated first and the first of them,
  \<^verbatim>\<open>indentCount\<close>, is bound nowhere. In the INDENT branch \<^verbatim>\<open>indentLevel\<close> is
  incremented and then \<^verbatim>\<open>mod.write\<close> is reached when \<^verbatim>\<open>didNewLine\<close> holds;
  \<^verbatim>\<open>mod\<close> is bound nowhere either.
\<close>

definition processToken :: "string \<Rightarrow> bool \<Rightarrow> rewriter \<Rightarrow> tokenInfo \<Rightarrow> error + rewriter" where
  "processToken ic debug s t =
    (if debug then Inl (NameError ''indentCount'')
     else if (tokenType t \<noteq> STRING \<or> previousTokenType s \<noteq> INDENT) \<and> tokenType t \<noteq> COMMENT then
       (if tokenType t = INDENT then
          (if didNewLine s then Inl (NameError ''mod'')
           else Inr (s\<lparr>indentLevel := indentLevel s + 1, needNewLine := True,
                       previousTokenType := tokenType t\<rparr>))
        else if tokenType t = DEDENT then
          Inr (s\<lparr>indentLevel := indentLevel s - 1,
                 needNewLine := (if didNewLine s then True else needNewLine s),
                 previousTokenType := tokenType t\<rparr>)
        else if tokenType t = NEWLINE \<or> tokenType t = NL then
          Inr (s\<lparr>needNewLine := True, previousTokenType := tokenType t\<rparr>)
        else
          (let s1 = (if needNewLine s
                     then (destWrite (str_mul ic (indentLevel s)) (destWrite newline s))
                            \<lparr>didNewLine := True, needNewLine := False\<rparr>
                     else s\<lparr>didNewLine := False\<rparr>);
               s2 = (if nameOrNumber (tokenType t) \<and> nameOrNumber (previousTokenType s)
                     then destWrite space s1 else s1);
               s3 = destWrite (tokenText t) s2
           in Inr (s3\<lparr>previousTokenType := tokenType t\<rparr>)))
     else Inr s)"

text \<open>The \<^verbatim>\<open>for\<close> loop over the token stream; an exception ends it.\<close>

fun tokenLoop :: "string \<Rightarrow> bool \<Rightarrow> rewriter \<Rightarrow> tokenInfo list \<Rightarrow> error + rewriter" where
  "tokenLoop ic debug s [] = Inr s"
| "tokenLoop ic debug s (t # ts) =
     (case processToken ic debug s t of
        Inl e \<Rightarrow> Inl e
      | Inr s' \<Rightarrow> tokenLoop ic debug s' ts)"

text \<open>
  \<^verbatim>\<open>stripFile( source, destination, indent, debug )\<close>: \<open>source\<close> is the token
  stream that the tokenizer yields for the file, \<open>destination\<close> what the sink
  holds on entry.
\<close>

definition stripFile :: "tokenInfo list \<Rightarrow> string list \<Rightarrow> int \<Rightarrow> bool \<Rightarrow> error + rewriter" where
  "stripFile source dest indent debug = tokenLoop (indentChar indent) debug (initial dest) source"

text \<open>The text that ends up in the sink: the writes, concatenated.\<close>

definition rendered :: "error + rewriter \<Rightarrow> error + string" where
  "rendered r = (case r of Inl e \<Rightarrow> Inl e | Inr s \<Rightarrow> Inr (concat (destination s)))"

text \<open>
  The main program parses \<^verbatim>\<open>-i\<close> and \<^verbatim>\<open>-d\<close> into \<^verbatim>\<open>args.indent\<close> and
  \<^verbatim>\<open>args.dump\<close> and converts each file with
  \<^verbatim>\<open>stripFile( sourceFile, destinationFile, args.indent )\<close> (line 198), so that
  \<^verbatim>\<open>debug\<close> takes its default.
\<close>

record args =
  indent :: int
  dump :: bool

definition convertFile :: "args \<Rightarrow> tokenInfo list \<Rightarrow> string list \<Rightarrow> error + rewriter" where
  "convertFile a sourceFile destinationFile = stripFile sourceFile destinationFile (indent a) False"


section \<open>Derived notions used in the statements\<close>

text \<open>
  The final \<^verbatim>\<open>else\<close> branch (lines 106 to 125) is reached by the kinds that
  are none of INDENT, DEDENT, NEWLINE and NL.
\<close>

definition contentKind :: "tokenType \<Rightarrow> bool" where
  "contentKind k = (k \<noteq> INDENT \<and> k \<noteq> DEDENT \<and> k \<noteq> NEWLINE \<and> k \<noteq> NL)"


text \<open>
  In the words of the specification: the indentation depth is the running count
  of INDENT tokens minus DEDENT tokens seen so far.
\<close>

definition runningDepth :: "tokenInfo list \<Rightarrow> int" where
  "runningDepth ts =
     int (length (filter (\<lambda>t. tokenType t = INDENT) ts))
     - int (length (filter (\<lambda>t. tokenType t = DEDENT) ts))"

text \<open>A string literal as it stands in the source text, between double quotes.\<close>

definition quoted :: "string \<Rightarrow> string" where
  "quoted txt = CHR 0x22 # txt @ [CHR 0x22]"

text \<open>
  The kinds that schedule a line break or change the depth; the assignment of
  line 127 makes each of them the previous kind.
\<close>

definition structural :: "tokenType \<Rightarrow> bool" where
  "structural k = (k = NEWLINE \<or> k = NL \<or> k = INDENT \<or> k = DEDENT)"

text \<open>
  What holds of every state that a run from \<open>initial d\<close> reaches: nothing that
  was in the sink is lost, and as long as a line break is pending or nothing
  has been written yet, the previous kind is a structural one.
\<close>

definition lineStartInv :: "string list \<Rightarrow> rewriter \<Rightarrow> bool" where
  "lineStartInv d s =
     (length d \<le> length (destination s)
      \<and> (needNewLine s \<or> destination s = d \<longrightarrow> structural (previousTokenType s)))"

subsection \<open>Token streams of example files\<close>

text \<open>
  \<^verbatim>\<open>a\<close>, \<^verbatim>\<open>x\<close> and an indented \<^verbatim>\<open>y\<close> on three lines: the tokenizer does not
  parse, and yields an INDENT after a line that holds a single token.
\<close>

definition singleTokenLineThenIndent :: "tokenInfo list" where
  "singleTokenLineThenIndent =
     [tok NAME ''a'', tok NEWLINE newline, tok NAME ''x'', tok NEWLINE newline,
      tok INDENT ''    '', tok NAME ''y'', tok NEWLINE newline, tok DEDENT [], tok ENDMARKER []]"

text \<open>A comment line, then the module's docstring, then \<^verbatim>\<open>x = 1\<close>.\<close>

definition commentThenDocstring :: "tokenInfo list" where
  "commentThenDocstring =
     [tok COMMENT ''# c'', tok NL newline, tok STRING (quoted ''doc''), tok NEWLINE newline,
      tok NAME ''x'', tok OP ''='', tok NUMBER ''1'', tok NEWLINE newline, tok ENDMARKER []]"




text \<open>Three nested blocks are opened, then two of them closed.\<close>

definition threeIndents :: "tokenInfo list" where
  "threeIndents = [tok INDENT tab, tok INDENT tab, tok INDENT tab]"

definition threeIndentsTwoDedents :: "tokenInfo list" where
  "threeIndentsTwoDedents =
     [tok INDENT tab, tok INDENT tab, tok INDENT tab, tok NAME ''x'', tok DEDENT [], tok DEDENT []]"

section \<open>Facts about one iteration and about the loop\<close>

lemmas eval_defs =
  stripFile_def processToken_def tok_def initial_def indentChar_def destWrite_def
  nameOrNumber_def str_mul_def newline_def tab_def space_def rendered_def quoted_def
  convertFile_def Let_def


lemma processToken_content:
  assumes "contentKind (tokenType t)" and "tokenType t \<noteq> COMMENT"
    and "tokenType t = STRING \<longrightarrow> previousTokenType s \<noteq> INDENT"
  shows "processToken ic False s t =
    Inr (s\<lparr>destination := destination s
              @ (if needNewLine s then [newline, str_mul ic (indentLevel s)] else [])
              @ (if nameOrNumber (tokenType t) \<and> nameOrNumber (previousTokenType s)
                 then [space] else [])
              @ [tokenText t],
           didNewLine := needNewLine s, needNewLine := False,
           previousTokenType := tokenType t\<rparr>)"
  using assms by (auto simp: processToken_def contentKind_def destWrite_def Let_def)

lemma tokenLoop_append:
  "tokenLoop ic dbg s (xs @ ys) =
     (case tokenLoop ic dbg s xs of Inl e \<Rightarrow> Inl e | Inr s' \<Rightarrow> tokenLoop ic dbg s' ys)"
  by (induction xs arbitrary: s) (auto split: sum.splits)

lemma tokenLoop_snoc:
  assumes "tokenLoop ic dbg s xs = Inr s'"
  shows "tokenLoop ic dbg s (xs @ [t]) = processToken ic dbg s' t"
  using assms by (simp add: tokenLoop_append split: sum.splits)

lemma processToken_level:
  assumes "processToken ic False s t = Inr s'"
  shows "indentLevel s' = indentLevel s
           + (if tokenType t = INDENT then 1 else 0) - (if tokenType t = DEDENT then 1 else 0)"
  using assms
  by (auto simp: processToken_def destWrite_def Let_def split: if_splits)

lemma runningDepth_Cons:
  "runningDepth (t # ts) =
     (if tokenType t = INDENT then 1 else 0) - (if tokenType t = DEDENT then 1 else 0)
       + runningDepth ts"
  by (simp add: runningDepth_def)

lemma tokenLoop_level:
  assumes "tokenLoop ic False s ts = Inr s'"
  shows "indentLevel s' = indentLevel s + runningDepth ts"
  using assms
proof (induction ts arbitrary: s)
  case Nil
  then show ?case by (simp add: runningDepth_def)
next
  case (Cons t ts)
  from Cons.prems obtain m where step: "processToken ic False s t = Inr m"
    and rest: "tokenLoop ic False m ts = Inr s'"
    by (auto split: sum.splits)
  have "indentLevel s' = indentLevel m + runningDepth ts"
    using Cons.IH [OF rest] .
  with processToken_level [OF step] show ?case
    by (simp add: runningDepth_Cons)
qed

lemma processToken_lineStartInv:
  assumes "processToken ic False s t = Inr s'" and "lineStartInv d s"
  shows "lineStartInv d s'"
  using assms
  by (auto simp: processToken_def destWrite_def Let_def lineStartInv_def structural_def
           split: if_splits)

lemma tokenLoop_lineStartInv:
  assumes "tokenLoop ic False s ts = Inr s'" and "lineStartInv d s"
  shows "lineStartInv d s'"
  using assms
proof (induction ts arbitrary: s)
  case Nil
  then show ?case by simp
next
  case (Cons t ts)
  from Cons.prems(1) obtain m where step: "processToken ic False s t = Inr m"
    and rest: "tokenLoop ic False m ts = Inr s'"
    by (auto split: sum.splits)
  show ?case
    using Cons.IH [OF rest processToken_lineStartInv [OF step Cons.prems(2)]] .
qed

lemma lineStartInv_initial: "lineStartInv d (initial d)"
  by (simp add: lineStartInv_def initial_def structural_def)

lemma structural_not_nameOrNumber: "structural k \<Longrightarrow> \<not> nameOrNumber k"
  by (auto simp: structural_def nameOrNumber_def)






section \<open>The claims\<close>

text \<open>
  C1. The claim: the rewriter never fails on a well-formed token stream, and an
  INDENT processed while \<^verbatim>\<open>didNewLine\<close> holds appends one indentation unit and
  processing continues. The code: on the stream of the three-line file
  \<^verbatim>\<open>a\<close>, \<^verbatim>\<open>x\<close>, indented \<^verbatim>\<open>y\<close>, the token \<^verbatim>\<open>x\<close> starts an output line,
  so the INDENT reaches \<^verbatim>\<open>mod.write( indentChar )\<close>, and the run ends in a
  NameError for \<^verbatim>\<open>mod\<close>.
\<close>

theorem C1_indent_at_line_start_raises:
  "stripFile singleTokenLineThenIndent [] 0 False = Inl (NameError ''mod'')"
  by (simp add: singleTokenLineThenIndent_def eval_defs)

text \<open>
  C2. The claim: a string literal that is the first statement is absent from
  the output, also when blank lines or comments precede it. The code: the NL
  token that ends a comment line becomes \<^verbatim>\<open>previousTokenType\<close>, so the
  docstring that follows is written out.
\<close>

theorem C2_docstring_after_comment_line_kept:
  "rendered (stripFile commentThenDocstring [] 0 False)
     = Inr (newline @ quoted ''doc'' @ newline @ ''x=1'' @ newline)"
  by (simp add: commentThenDocstring_def eval_defs)




text \<open>
  C4. The claim: after a DEDENT the previous kind is the sentinel INDENT, so
  that a STRING directly behind a DEDENT is dropped. The code: after the DEDENT
  of a one-statement block the previous kind is not INDENT, and the string
  behind it is written.
\<close>

theorem C4_string_after_dedent_is_written:
  "map_sum id previousTokenType
      (stripFile [tok INDENT tab, tok NAME ''x'', tok NEWLINE newline, tok DEDENT []] [] 0 False)
     \<noteq> Inr INDENT
   \<and> rendered (stripFile [tok INDENT tab, tok NAME ''x'', tok NEWLINE newline, tok DEDENT [],
                          tok STRING (quoted ''s'')] [] 0 False)
     = Inr (newline @ tab @ ''x'' @ newline @ quoted ''s'')"
  by (simp add: eval_defs)

text \<open>
  C4, amended. A DEDENT never fails and writes nothing; it lowers the depth by
  one, schedules a line break when the last content token started a line, and
  leaves DEDENT, its own kind, as the previous kind. A STRING directly behind
  it is therefore not dropped: its text is the last thing written, and STRING
  becomes the previous kind.
\<close>

theorem C4_dedent_leaves_DEDENT_as_previous:
  assumes "tokenType t = DEDENT" and "tokenType u = STRING"
  shows "\<exists>s' s''. processToken ic False s t = Inr s'
           \<and> previousTokenType s' = DEDENT
           \<and> indentLevel s' = indentLevel s - 1
           \<and> needNewLine s' = (didNewLine s \<or> needNewLine s)
           \<and> destination s' = destination s
           \<and> processToken ic False s' u = Inr s''
           \<and> last (destination s'') = tokenText u
           \<and> previousTokenType s'' = STRING"
  using assms by (auto simp: processToken_def destWrite_def Let_def)

theorem C4_dedent_leaves_DEDENT_as_previous_witness:
  "\<exists>s' s''. processToken tab False (initial []) (tok DEDENT []) = Inr s'
           \<and> previousTokenType s' = DEDENT
           \<and> indentLevel s' = indentLevel (initial []) - 1
           \<and> needNewLine s' = (didNewLine (initial []) \<or> needNewLine (initial []))
           \<and> destination s' = destination (initial [])
           \<and> processToken tab False s' (tok STRING (quoted ''s'')) = Inr s''
           \<and> last (destination s'') = tokenText (tok STRING (quoted ''s''))
           \<and> previousTokenType s'' = STRING"
  using C4_dedent_leaves_DEDENT_as_previous
          [of "tok DEDENT []" "tok STRING (quoted ''s'')" tab "initial []"]
  by (simp add: tok_def)



text \<open>
  C6. A content token that is not dropped is always written, and what is
  written for it is: the pending line break with its indentation, if any; then
  one space exactly when its kind and the previous kind are both NAME or
  NUMBER, and nothing otherwise; then its text. So \<^verbatim>\<open>return\<close>, \<^verbatim>\<open>x\<close> come
  out as \<^verbatim>\<open>return x\<close> and \<^verbatim>\<open>f\<close>, \<^verbatim>\<open>(\<close> as \<^verbatim>\<open>f(\<close>.
\<close>

theorem C6_space_iff_both_name_or_number:
  assumes "contentKind (tokenType t)" and "tokenType t \<noteq> COMMENT"
    and "tokenType t = STRING \<longrightarrow> previousTokenType s \<noteq> INDENT"
  shows "(\<exists>s'. processToken ic False s t = Inr s'
     \<and> destination s' = destination s
          @ (if needNewLine s then [newline, str_mul ic (indentLevel s)] else [])
          @ (if (tokenType t = NAME \<or> tokenType t = NUMBER)
                \<and> (previousTokenType s = NAME \<or> previousTokenType s = NUMBER)
             then [space] else [])
          @ [tokenText t]
     \<and> previousTokenType s' = tokenType t)
   \<and> rendered (stripFile [tok NAME ''return'', tok NAME ''x''] [] 0 False) = Inr ''return x''
   \<and> rendered (stripFile [tok NAME ''f'', tok OP ''(''] [] 0 False) = Inr ''f(''"
proof -
  have "\<exists>s'. processToken ic False s t = Inr s'
     \<and> destination s' = destination s
          @ (if needNewLine s then [newline, str_mul ic (indentLevel s)] else [])
          @ (if (tokenType t = NAME \<or> tokenType t = NUMBER)
                \<and> (previousTokenType s = NAME \<or> previousTokenType s = NUMBER)
             then [space] else [])
          @ [tokenText t]
     \<and> previousTokenType s' = tokenType t"
    using processToken_content [OF assms, of ic] by (simp add: nameOrNumber_def)
  moreover have "rendered (stripFile [tok NAME ''return'', tok NAME ''x''] [] 0 False)
                   = Inr ''return x''"
    by (simp add: eval_defs)
  moreover have "rendered (stripFile [tok NAME ''f'', tok OP ''(''] [] 0 False) = Inr ''f(''"
    by (simp add: eval_defs)
  ultimately show ?thesis by simp
qed

theorem C6_space_iff_both_name_or_number_witness:
  "(\<exists>s'. processToken tab False
            ((initial [''return''])\<lparr>previousTokenType := NAME\<rparr>) (tok NAME ''x'') = Inr s'
        \<and> destination s' = [''return'', space, ''x''])
   \<and> (\<exists>s'. processToken tab False
            ((initial [''f''])\<lparr>previousTokenType := NAME\<rparr>) (tok OP ''('') = Inr s'
        \<and> destination s' = [''f'', ''(''])"
proof -
  have x1: "contentKind (tokenType (tok NAME ''x''))"
    and x2: "tokenType (tok NAME ''x'') \<noteq> COMMENT"
    and x3: "tokenType (tok NAME ''x'') = STRING
               \<longrightarrow> previousTokenType ((initial [''return''])\<lparr>previousTokenType := NAME\<rparr>) \<noteq> INDENT"
    by (simp_all add: tok_def contentKind_def)
  from conjunct1 [OF C6_space_iff_both_name_or_number [OF x1 x2 x3, of tab]]
  obtain s1 where "processToken tab False
            ((initial [''return''])\<lparr>previousTokenType := NAME\<rparr>) (tok NAME ''x'') = Inr s1"
    and "destination s1 = [''return'', space, ''x'']"
    by (auto simp: tok_def initial_def)
  then have a: "\<exists>s'. processToken tab False
            ((initial [''return''])\<lparr>previousTokenType := NAME\<rparr>) (tok NAME ''x'') = Inr s'
        \<and> destination s' = [''return'', space, ''x'']"
    by blast
  have p1: "contentKind (tokenType (tok OP ''(''))"
    and p2: "tokenType (tok OP ''('') \<noteq> COMMENT"
    and p3: "tokenType (tok OP ''('') = STRING
               \<longrightarrow> previousTokenType ((initial [''f''])\<lparr>previousTokenType := NAME\<rparr>) \<noteq> INDENT"
    by (simp_all add: tok_def contentKind_def)
  from conjunct1 [OF C6_space_iff_both_name_or_number [OF p1 p2 p3, of tab]]
  obtain s2 where "processToken tab False
            ((initial [''f''])\<lparr>previousTokenType := NAME\<rparr>) (tok OP ''('') = Inr s2"
    and "destination s2 = [''f'', ''('']"
    by (auto simp: tok_def initial_def)
  then have b: "\<exists>s'. processToken tab False
            ((initial [''f''])\<lparr>previousTokenType := NAME\<rparr>) (tok OP ''('') = Inr s'
        \<and> destination s' = [''f'', ''('']"
    by blast
  from a b show ?thesis by blast
qed

text \<open>
  C7. Whenever a run of \<^verbatim>\<open>stripFile\<close> has come through a prefix \<open>pre\<close> of the
  stream with a line break pending, the next content token that is not dropped
  starts a new output line: what is written for it is the line break, the
  indentation unit repeated as often as INDENT tokens outnumber DEDENT tokens
  in \<open>pre\<close> (not at all when they do not, as Python's string repetition has
  it), and the token's text.
\<close>

theorem C7_line_indentation_is_running_depth:
  assumes "stripFile pre d n False = Inr s"
    and "needNewLine s"
    and "contentKind (tokenType t)" and "tokenType t \<noteq> COMMENT"
    and "tokenType t = STRING \<longrightarrow> previousTokenType s \<noteq> INDENT"
  shows "\<exists>s'. stripFile (pre @ [t]) d n False = Inr s'
          \<and> destination s' = destination s
               @ [newline, concat (replicate (nat (runningDepth pre)) (indentChar n)), tokenText t]"
proof -
  have run: "tokenLoop (indentChar n) False (initial d) pre = Inr s"
    using assms(1) by (simp add: stripFile_def)
  have "lineStartInv d s"
    using tokenLoop_lineStartInv [OF run lineStartInv_initial] .
  with assms(2) have st: "structural (previousTokenType s)"
    by (auto simp: lineStartInv_def)
  have lvl: "indentLevel s = runningDepth pre"
    using tokenLoop_level [OF run] by (simp add: initial_def)
  have step: "stripFile (pre @ [t]) d n False = processToken (indentChar n) False s t"
    using tokenLoop_snoc [OF run] by (simp add: stripFile_def)
  show ?thesis
    using structural_not_nameOrNumber [OF st] step lvl assms(2)
      processToken_content [OF assms(3) assms(4) assms(5), of "indentChar n"]
    by (simp add: str_mul_def)
qed

theorem C7_line_indentation_is_running_depth_witness:
  "(\<exists>s'. stripFile (threeIndents @ [tok NAME ''x'']) [] 0 False = Inr s'
        \<and> destination s' = [newline, tab @ tab @ tab, ''x''])
   \<and> (\<exists>s'. stripFile (threeIndentsTwoDedents @ [tok NAME ''y'']) [] 0 False = Inr s'
        \<and> destination s' = [newline, tab @ tab @ tab, ''x'', newline, tab, ''y''])"
proof -
  have r1: "stripFile threeIndents [] 0 False
      = Inr \<lparr>previousTokenType = INDENT, indentLevel = 3, didNewLine = False,
             needNewLine = True, destination = [], errStream = []\<rparr>"
    by (simp add: threeIndents_def eval_defs)
  have d1: "nat (runningDepth threeIndents) = Suc (Suc (Suc 0))"
    by (simp add: threeIndents_def runningDepth_def tok_def)
  have a: "\<exists>s'. stripFile (threeIndents @ [tok NAME ''x'']) [] 0 False = Inr s'
        \<and> destination s' = [newline, tab @ tab @ tab, ''x'']"
    using C7_line_indentation_is_running_depth [OF r1, of "tok NAME ''x''"] d1
    by (simp add: tok_def contentKind_def indentChar_def)
  have r2: "stripFile threeIndentsTwoDedents [] 0 False
      = Inr \<lparr>previousTokenType = DEDENT, indentLevel = 1, didNewLine = True,
             needNewLine = True, destination = [newline, tab @ tab @ tab, ''x''],
             errStream = []\<rparr>"
    by (simp add: threeIndentsTwoDedents_def eval_defs eval_nat_numeral)
  have d2: "nat (runningDepth threeIndentsTwoDedents) = Suc 0"
    by (simp add: threeIndentsTwoDedents_def runningDepth_def tok_def)
  have b: "\<exists>s'. stripFile (threeIndentsTwoDedents @ [tok NAME ''y'']) [] 0 False = Inr s'
        \<and> destination s' = [newline, tab @ tab @ tab, ''x'', newline, tab, ''y'']"
    using C7_line_indentation_is_running_depth [OF r2, of "tok NAME ''y''"] d2
    by (simp add: tok_def contentKind_def indentChar_def)
  from a b show ?thesis by simp
qed



text \<open>
  C9. The claim: with the dump flag on the command line, a trace line for every
  raw token goes to the error stream. The code: the main program never hands
  \<^verbatim>\<open>args.dump\<close> to \<^verbatim>\<open>stripFile\<close>, so a conversion with the flag set writes
  nothing to the error stream; and a call of \<^verbatim>\<open>stripFile\<close> with
  \<^verbatim>\<open>debug\<close> set ends at the first token in a NameError.
\<close>

theorem C9_dump_flag_writes_no_trace:
  "convertFile \<lparr>indent = 0, dump = True\<rparr>
      [tok NAME ''x'', tok NEWLINE newline, tok ENDMARKER []] []
     = Inr \<lparr>previousTokenType = ENDMARKER, indentLevel = 0, didNewLine = True,
            needNewLine = False, destination = [''x'', newline, [], []], errStream = []\<rparr>
   \<and> stripFile [tok NAME ''x'', tok NEWLINE newline, tok ENDMARKER []] [] 0 True
     = Inl (NameError ''indentCount'')"
  by (simp add: eval_defs)

text \<open>
  C10. Whenever a run of \<^verbatim>\<open>stripFile\<close> has come through a prefix of the stream
  and the next content token starts an output line (a line break is pending,
  or nothing has been written yet), the previous kind is one of NEWLINE, NL,
  INDENT and DEDENT, and what is written for the token is the line break with
  its indentation, if pending, and then directly the token's text: no space,
  whatever the token's kind.
\<close>

theorem C10_no_space_at_line_start:
  assumes "stripFile pre d n False = Inr s"
    and "needNewLine s \<or> destination s = d"
    and "contentKind (tokenType t)" and "tokenType t \<noteq> COMMENT"
    and "tokenType t = STRING \<longrightarrow> previousTokenType s \<noteq> INDENT"
  shows "previousTokenType s \<in> {NEWLINE, NL, INDENT, DEDENT}
    \<and> (\<exists>s'. stripFile (pre @ [t]) d n False = Inr s'
          \<and> destination s' = destination s
               @ (if needNewLine s then [newline, str_mul (indentChar n) (indentLevel s)] else [])
               @ [tokenText t])"
proof -
  have run: "tokenLoop (indentChar n) False (initial d) pre = Inr s"
    using assms(1) by (simp add: stripFile_def)
  have "lineStartInv d s"
    using tokenLoop_lineStartInv [OF run lineStartInv_initial] .
  with assms(2) have st: "structural (previousTokenType s)"
    by (auto simp: lineStartInv_def)
  have step: "stripFile (pre @ [t]) d n False = processToken (indentChar n) False s t"
    using tokenLoop_snoc [OF run] by (simp add: stripFile_def)
  show ?thesis
    using st structural_not_nameOrNumber [OF st] step
      processToken_content [OF assms(3) assms(4) assms(5), of "indentChar n"]
    by (auto simp: structural_def)
qed

theorem C10_no_space_at_line_start_witness:
  "\<exists>s'. stripFile ([tok NAME ''a'', tok NEWLINE newline] @ [tok NAME ''b'']) [] 0 False = Inr s'
        \<and> destination s' = [''a'', newline, [], ''b'']"
proof -
  have r: "stripFile [tok NAME ''a'', tok NEWLINE newline] [] 0 False
      = Inr \<lparr>previousTokenType = NEWLINE, indentLevel = 0, didNewLine = False,
             needNewLine = True, destination = [''a''], errStream = []\<rparr>"
    by (simp add: eval_defs)
  show ?thesis
    using C10_no_space_at_line_start [OF r, of "tok NAME ''b''"]
    by (simp add: tok_def contentKind_def str_mul_def)
qed

end
